theory Spec2Isabelle
  imports Main
begin

section \<open>Data model\<close>

text \<open>
  The program works on the parsed body of a GraphQL response: what
  \<^verbatim>\<open>response.json()\<close> returns, nested Python dicts, lists, strings, numbers,
  booleans and \<^verbatim>\<open>None\<close>. A dict is an association list read through
  \<open>map_of\<close>; the keys of a dict are distinct, and the order of the list is the
  order in which the dict is iterated. Of a number the program only ever uses
  its truth value and the fact that it can be neither subscripted nor iterated,
  so integers stand for all numbers.
\<close>

datatype json =
    JNull
  | JBool bool
  | JNum int
  | JStr string
  | JArr "json list"
  | JObj "(string \<times> json) list"

text \<open>The exceptions the program can meet, as values.\<close>

datatype error =
    KeyError | TypeError | AttributeError | ValueError | RequestException
  | NotRenderableError

type_synonym 'a result = "error + 'a"

text \<open>Python's truth value of an object (\<^verbatim>\<open>if x\<close>, \<^verbatim>\<open>not x\<close>).\<close>

fun truthy :: "json \<Rightarrow> bool" where
  "truthy JNull = False"
| "truthy (JBool b) = b"
| "truthy (JNum n) = (n \<noteq> 0)"
| "truthy (JStr s) = (s \<noteq> [])"
| "truthy (JArr xs) = (xs \<noteq> [])"
| "truthy (JObj kvs) = (kvs \<noteq> [])"

text \<open>
  \<^verbatim>\<open>x[key]\<close> with a string key: a dict without the key raises KeyError, and
  every other kind of object raises TypeError (a list or a string wants an
  integer index, the others are not subscriptable).
\<close>

fun subscript :: "json \<Rightarrow> string \<Rightarrow> json result" where
  "subscript (JObj kvs) key =
     (case map_of kvs key of None \<Rightarrow> Inl KeyError | Some v \<Rightarrow> Inr v)"
| "subscript _ key = Inl TypeError"

text \<open>
  \<^verbatim>\<open>x.get(key, default)\<close>: only a dict has the method, every other object
  raises AttributeError. \<^verbatim>\<open>x.get(key)\<close> is \<open>dict_get x key JNull\<close>.
\<close>

fun dict_get :: "json \<Rightarrow> string \<Rightarrow> json \<Rightarrow> json result" where
  "dict_get (JObj kvs) key dflt =
     (case map_of kvs key of None \<Rightarrow> Inr dflt | Some v \<Rightarrow> Inr v)"
| "dict_get _ key dflt = Inl AttributeError"

text \<open>
  \<^verbatim>\<open>for x in obj\<close>: a list yields its elements, a dict its keys, a string its
  characters as one-character strings; nothing else is iterable.
\<close>

fun py_iter :: "json \<Rightarrow> json list result" where
  "py_iter (JArr xs) = Inr xs"
| "py_iter (JObj kvs) = Inr (map (\<lambda>kv. JStr (fst kv)) kvs)"
| "py_iter (JStr s) = Inr (map (\<lambda>c. JStr [c]) s)"
| "py_iter _ = Inl TypeError"

text \<open>
  The dataclass \<^verbatim>\<open>Comment\<close>. Python does not check the annotated types, so a
  field holds whatever object the response had at that place; \<open>JNull\<close> is
  \<^verbatim>\<open>None\<close>, the default of the two commit fields.
\<close>

record Comment =
  author :: json
  body :: json
  created_at :: json
  url :: json
  commit_id :: json
  commit_message :: json

section \<open>The flattener: \<^verbatim>\<open>_parse_response\<close>\<close>

text \<open>
  One pass of the inner loop body (source lines 138 to 147): the keyword
  arguments of \<^verbatim>\<open>Comment(...)\<close> are evaluated left to right, after
  \<^verbatim>\<open>commit_data\<close>. \<^verbatim>\<open>comment["author"]\<close> is read for the test and, when true,
  again for the login; both reads give the same object.
\<close>

definition make_comment :: "json \<Rightarrow> Comment result" where
  "make_comment comment =
     (case dict_get comment ''originalCommit'' (JObj []) of Inl e \<Rightarrow> Inl e
      | Inr commit_data \<Rightarrow>
     (case subscript comment ''author'' of Inl e \<Rightarrow> Inl e
      | Inr a \<Rightarrow>
     (case (if truthy a then subscript a ''login'' else Inr (JStr ''unknown'')) of
        Inl e \<Rightarrow> Inl e
      | Inr au \<Rightarrow>
     (case subscript comment ''body'' of Inl e \<Rightarrow> Inl e
      | Inr b \<Rightarrow>
     (case subscript comment ''createdAt'' of Inl e \<Rightarrow> Inl e
      | Inr c \<Rightarrow>
     (case subscript comment ''url'' of Inl e \<Rightarrow> Inl e
      | Inr u \<Rightarrow>
     (case dict_get commit_data ''oid'' JNull of Inl e \<Rightarrow> Inl e
      | Inr oid \<Rightarrow>
     (case dict_get commit_data ''message'' JNull of Inl e \<Rightarrow> Inl e
      | Inr msg \<Rightarrow>
        Inr \<lparr>author = au, body = b, created_at = c, url = u,
             commit_id = oid, commit_message = msg\<rparr>))))))))"

text \<open>
  The inner loop \<^verbatim>\<open>for comment in thread["comments"]["nodes"]\<close>, appending to
  the list \<^verbatim>\<open>comments\<close>; the first exception ends it.
\<close>

fun parse_comments :: "json list \<Rightarrow> Comment list \<Rightarrow> Comment list result" where
  "parse_comments [] comments = Inr comments"
| "parse_comments (comment # rest) comments =
     (case make_comment comment of Inl e \<Rightarrow> Inl e
      | Inr c \<Rightarrow> parse_comments rest (comments @ [c]))"

text \<open>
  The test \<^verbatim>\<open>filter_type == 'unresolved' and thread["isResolved"]\<close>: the
  conjunction is short-circuit, so the flag is read only under the filter
  \<^verbatim>\<open>'unresolved'\<close>.
\<close>

definition skip_thread :: "string \<Rightarrow> json \<Rightarrow> bool result" where
  "skip_thread filter_type thread =
     (if filter_type = ''unresolved''
      then (case subscript thread ''isResolved'' of Inl e \<Rightarrow> Inl e
            | Inr r \<Rightarrow> Inr (truthy r))
      else Inr False)"

text \<open>\<^verbatim>\<open>thread["comments"]["nodes"]\<close>, made ready for the inner loop.\<close>

definition thread_nodes :: "json \<Rightarrow> json list result" where
  "thread_nodes thread =
     (case subscript thread ''comments'' of Inl e \<Rightarrow> Inl e
      | Inr cs \<Rightarrow>
     (case subscript cs ''nodes'' of Inl e \<Rightarrow> Inl e
      | Inr ns \<Rightarrow> py_iter ns))"

text \<open>The outer loop \<^verbatim>\<open>for thread in threads\<close> with its \<^verbatim>\<open>continue\<close>.\<close>

fun parse_threads :: "string \<Rightarrow> json list \<Rightarrow> Comment list \<Rightarrow> Comment list result" where
  "parse_threads filter_type [] comments = Inr comments"
| "parse_threads filter_type (thread # rest) comments =
     (case skip_thread filter_type thread of Inl e \<Rightarrow> Inl e
      | Inr True \<Rightarrow> parse_threads filter_type rest comments
      | Inr False \<Rightarrow>
     (case thread_nodes thread of Inl e \<Rightarrow> Inl e
      | Inr nodes \<Rightarrow>
     (case parse_comments nodes comments of Inl e \<Rightarrow> Inl e
      | Inr comments' \<Rightarrow> parse_threads filter_type rest comments')))"

text \<open>\<^verbatim>\<open>threads = pr_data["reviewThreads"]["nodes"]\<close>, made ready for the loop.\<close>

definition page_threads :: "json \<Rightarrow> json list result" where
  "page_threads pr_data =
     (case subscript pr_data ''reviewThreads'' of Inl e \<Rightarrow> Inl e
      | Inr rt \<Rightarrow>
     (case subscript rt ''nodes'' of Inl e \<Rightarrow> Inl e
      | Inr threads \<Rightarrow> py_iter threads))"

definition parse_response :: "json \<Rightarrow> string \<Rightarrow> Comment list result" where
  "parse_response pr_data filter_type =
     (case page_threads pr_data of Inl e \<Rightarrow> Inl e
      | Inr threads \<Rightarrow> parse_threads filter_type threads [])"

section \<open>The pagination driver: \<^verbatim>\<open>get_pr_comments\<close>\<close>

text \<open>
  \<^verbatim>\<open>execute_query\<close> posts one request and returns the parsed body, or raises.
  What it returns is decided outside the program, so the outside is a
  parameter: \<open>world\<close> maps the history of all requests sent so far, the
  current one last, to the answer of the current one (\<open>Inl\<close> when
  \<^verbatim>\<open>requests.post\<close>, \<^verbatim>\<open>raise_for_status\<close> or \<^verbatim>\<open>response.json\<close> raises). A request
  is the bearer token of the header and the \<^verbatim>\<open>variables\<close> dict; the query text
  is the same in every request and is left out. The history is the only state:
  its length is the number of HTTP calls made.
\<close>

record request =
  bearer :: string
  variables :: json

type_synonym world = "request list \<Rightarrow> json result"

definition execute_query ::
  "world \<Rightarrow> string \<Rightarrow> request list \<Rightarrow> json \<Rightarrow> request list \<times> json result" where
  "execute_query world token sent vars =
     (let sent' = sent @ [\<lparr>bearer = token, variables = vars\<rparr>]
      in (sent', world sent'))"

text \<open>The \<^verbatim>\<open>variables\<close> dict built at the head of each iteration.\<close>

definition request_variables :: "string \<Rightarrow> string \<Rightarrow> int \<Rightarrow> json \<Rightarrow> json" where
  "request_variables owner repo pr_number review_cursor =
     JObj [(''owner'', JStr owner), (''name'', JStr repo),
           (''pull_number'', JNum pr_number), (''review_after'', review_cursor)]"

text \<open>\<^verbatim>\<open>pr_data = data["data"]["repository"]["pullRequest"]\<close>\<close>

definition pull_request_of :: "json \<Rightarrow> json result" where
  "pull_request_of data =
     (case subscript data ''data'' of Inl e \<Rightarrow> Inl e
      | Inr d \<Rightarrow>
     (case subscript d ''repository'' of Inl e \<Rightarrow> Inl e
      | Inr r \<Rightarrow> subscript r ''pullRequest''))"

text \<open>
  Source lines 121 and 122: the page info of the review threads, and the
  conditional expression that reads \<^verbatim>\<open>hasNextPage\<close> first and \<^verbatim>\<open>endCursor\<close>
  only when it is true.
\<close>

definition next_cursor :: "json \<Rightarrow> json result" where
  "next_cursor pr_data =
     (case subscript pr_data ''reviewThreads'' of Inl e \<Rightarrow> Inl e
      | Inr rt \<Rightarrow>
     (case subscript rt ''pageInfo'' of Inl e \<Rightarrow> Inl e
      | Inr review_page_info \<Rightarrow>
     (case subscript review_page_info ''hasNextPage'' of Inl e \<Rightarrow> Inl e
      | Inr h \<Rightarrow>
        if truthy h then subscript review_page_info ''endCursor'' else Inr JNull)))"

text \<open>
  The body of the \<^verbatim>\<open>while True\<close> loop after the request, on the answer
  received: the comments of the page and the new cursor.
\<close>

definition process_page :: "json \<Rightarrow> string \<Rightarrow> (Comment list \<times> json) result" where
  "process_page data filter_type =
     (case pull_request_of data of Inl e \<Rightarrow> Inl e
      | Inr pr_data \<Rightarrow>
     (case parse_response pr_data filter_type of Inl e \<Rightarrow> Inl e
      | Inr page_comments \<Rightarrow>
     (case next_cursor pr_data of Inl e \<Rightarrow> Inl e
      | Inr review_cursor \<Rightarrow> Inr (page_comments, review_cursor))))"

text \<open>
  The loop. Nothing in the program bounds the number of iterations: against a
  world whose every page announces a next page it runs forever, and then the
  value is \<open>None\<close>. Otherwise the value is the history of requests together
  with the returned list or the exception that left the loop.
\<close>

partial_function (option) fetch_loop ::
  "world \<Rightarrow> string \<Rightarrow> string \<Rightarrow> string \<Rightarrow> int \<Rightarrow> string \<Rightarrow>
   request list \<Rightarrow> json \<Rightarrow> Comment list \<Rightarrow> (request list \<times> Comment list result) option" where
  "fetch_loop world token owner repo pr_number filter_type sent review_cursor all_comments =
     (case execute_query world token sent
             (request_variables owner repo pr_number review_cursor) of
        (sent', Inl e) \<Rightarrow> Some (sent', Inl e)
      | (sent', Inr data) \<Rightarrow>
     (case process_page data filter_type of
        Inl e \<Rightarrow> Some (sent', Inl e)
      | Inr (page_comments, review_cursor') \<Rightarrow>
          if \<not> truthy review_cursor'
          then Some (sent', Inr (all_comments @ page_comments))
          else fetch_loop world token owner repo pr_number filter_type
                 sent' review_cursor' (all_comments @ page_comments)))"

definition get_pr_comments ::
  "world \<Rightarrow> string \<Rightarrow> request list \<Rightarrow> string \<Rightarrow> string \<Rightarrow> int \<Rightarrow> string \<Rightarrow>
   (request list \<times> Comment list result) option" where
  "get_pr_comments world token sent owner repo pr_number filter_type =
     fetch_loop world token owner repo pr_number filter_type sent JNull []"

section \<open>The presenter: \<^verbatim>\<open>Comment.short_commit_id\<close> and \<^verbatim>\<open>display_comments\<close>\<close>

text \<open>
  \<^verbatim>\<open>x[:7]\<close>: the first seven items of a string or of a list. The other objects
  that can be true (numbers, booleans, dicts) cannot be sliced and raise; for a
  dict the exception is TypeError up to Python 3.11 and KeyError from 3.12 on,
  and it is TypeError here.
\<close>

fun slice7 :: "json \<Rightarrow> json result" where
  "slice7 (JStr s) = Inr (JStr (take 7 s))"
| "slice7 (JArr xs) = Inr (JArr (take 7 xs))"
| "slice7 _ = Inl TypeError"

definition short_commit_id :: "Comment \<Rightarrow> json result" where
  "short_commit_id self =
     (if truthy (commit_id self) then slice7 (commit_id self) else Inr JNull)"

text \<open>\<^verbatim>\<open>s.split('\n')[0]\<close>: what stands before the first line feed of \<open>s\<close>.\<close>

definition first_line :: "string \<Rightarrow> string" where
  "first_line s = takeWhile (\<lambda>c. c \<noteq> CHR 0x0A) s"

text \<open>
  The local \<^verbatim>\<open>commit_msg\<close> of source line 171; only a string has the method
  \<^verbatim>\<open>split\<close>.
\<close>

definition commit_msg :: "Comment \<Rightarrow> string result" where
  "commit_msg comment =
     (if truthy (commit_message comment)
      then (case commit_message comment of
              JStr s \<Rightarrow> Inr (first_line s)
            | _ \<Rightarrow> Inl AttributeError)
      else Inr ''No commit message'')"

text \<open>
  The cell of the column Commit (source lines 170 to 174). \<open>Commit_cell i m\<close>
  stands for the formatted string \<^verbatim>\<open>f"{comment.short_commit_id}\n{commit_msg}"\<close>,
  the short id, a line feed and the commit line; \<open>Not_available\<close> for
  \<^verbatim>\<open>"N/A"\<close>.
\<close>

datatype commit_cell = Not_available | Commit_cell json string

definition commit_info :: "Comment \<Rightarrow> commit_cell result" where
  "commit_info comment =
     (if truthy (commit_id comment)
      then (case commit_msg comment of Inl e \<Rightarrow> Inl e
            | Inr m \<Rightarrow>
           (case short_commit_id comment of Inl e \<Rightarrow> Inl e
            | Inr i \<Rightarrow> Inr (Commit_cell i m)))
      else Inr Not_available)"

text \<open>
  \<^verbatim>\<open>Comment.formatted_date\<close>: \<^verbatim>\<open>created_at.replace('Z', '+00:00')\<close> needs a string and
  puts the offset in the place of every \<^verbatim>\<open>Z\<close>. The parsing and formatting that
  follow, \<^verbatim>\<open>datetime.fromisoformat(...).strftime(...)\<close>, belong to the \<^verbatim>\<open>datetime\<close>
  library and are the parameter \<open>strftime\<close>: the formatted date, or the
  ValueError of a string that is no ISO date.
\<close>

definition replace_Z :: "string \<Rightarrow> string" where
  "replace_Z s = concat (map (\<lambda>c. if c = CHR ''Z'' then ''+00:00'' else [c]) s)"

definition comment_formatted_date :: "(string \<Rightarrow> string result) \<Rightarrow> Comment \<Rightarrow> string result" where
  "comment_formatted_date strftime self =
     (case created_at self of
        JStr s \<Rightarrow> strftime (replace_Z s)
      | _ \<Rightarrow> Inl AttributeError)"

text \<open>
  The cells of a row as the \<^verbatim>\<open>rich\<close> library takes them. \<^verbatim>\<open>Text(comment.body, ...)\<close>
  strips control codes with \<^verbatim>\<open>str.translate\<close>, so a body that is no string
  raises AttributeError. \<^verbatim>\<open>Table.add_row\<close> takes a string for a cell, makes an
  empty cell of \<^verbatim>\<open>None\<close> and raises NotRenderableError for any other object. How
  the library draws the cells is outside the model.
\<close>

definition rich_text :: "json \<Rightarrow> string result" where
  "rich_text x = (case x of JStr s \<Rightarrow> Inr s | _ \<Rightarrow> Inl AttributeError)"

definition add_cell :: "json \<Rightarrow> string result" where
  "add_cell x =
     (case x of JStr s \<Rightarrow> Inr s | JNull \<Rightarrow> Inr [] | _ \<Rightarrow> Inl NotRenderableError)"

text \<open>
  A row of the table: date, author, commit cell, body, URL. The commit cell is
  computed first (source lines 170 to 174); the arguments of \<^verbatim>\<open>add_row\<close> are
  then evaluated from left to right, the date and the \<^verbatim>\<open>Text\<close> of the body
  being the two that can raise; \<^verbatim>\<open>add_row\<close> itself then checks the author and
  the URL.
\<close>

type_synonym row = "string \<times> string \<times> commit_cell \<times> string \<times> string"

definition table_row :: "(string \<Rightarrow> string result) \<Rightarrow> Comment \<Rightarrow> row result" where
  "table_row strftime comment =
     (case commit_info comment of Inl e \<Rightarrow> Inl e
      | Inr cell \<Rightarrow>
     (case comment_formatted_date strftime comment of Inl e \<Rightarrow> Inl e
      | Inr d \<Rightarrow>
     (case rich_text (body comment) of Inl e \<Rightarrow> Inl e
      | Inr b \<Rightarrow>
     (case add_cell (author comment) of Inl e \<Rightarrow> Inl e
      | Inr a \<Rightarrow>
     (case add_cell (url comment) of Inl e \<Rightarrow> Inl e
      | Inr u \<Rightarrow> Inr (d, a, cell, b, u))))))"

fun table_rows :: "(string \<Rightarrow> string result) \<Rightarrow> Comment list \<Rightarrow> row list \<Rightarrow> row list result" where
  "table_rows strftime [] rows = Inr rows"
| "table_rows strftime (comment # rest) rows =
     (case table_row strftime comment of Inl e \<Rightarrow> Inl e
      | Inr r \<Rightarrow> table_rows strftime rest (rows @ [r]))"

text \<open>
  What is printed: the panel of the empty case, or the table followed by the
  line \<^verbatim>\<open>Total {filter_type} comments: {len(comments)}\<close>, kept as its two
  variable parts.
\<close>

datatype rendering = Panel string | Table "row list" string nat

definition display_comments :: "(string \<Rightarrow> string result) \<Rightarrow> Comment list \<Rightarrow> rendering result" where
  "display_comments strftime comments =
     (if comments = [] then Inr (Panel ''No unresolved comments found'')
      else (case table_rows strftime comments [] of Inl e \<Rightarrow> Inl e
            | Inr rows \<Rightarrow>
                Inr (Table rows
                       (if length comments = 1 then ''unresolved'' else ''total'')
                       (length comments))))"

section \<open>The entry point: \<^verbatim>\<open>main\<close>\<close>

text \<open>
  The namespace that \<^verbatim>\<open>parse_arguments\<close> returns; \<^verbatim>\<open>main\<close> is modelled from the
  point where the arguments have been parsed.
\<close>

record args =
  arg_owner :: string
  arg_repo :: string
  arg_pr :: int
  arg_filter :: string

text \<open>
  How a run of \<^verbatim>\<open>main\<close> ends: an exception leaves it (\<open>Raised\<close>), an exception
  is caught by one of the two handlers and printed (\<open>Error_printed\<close>), or the
  comments are displayed.
\<close>

datatype outcome = Raised error | Error_printed error | Displayed rendering

definition main ::
  "world \<Rightarrow> (string \<Rightarrow> string result) \<Rightarrow> (string \<rightharpoonup> string) \<Rightarrow> args \<Rightarrow>
   (request list \<times> outcome) option" where
  "main world strftime environ a =
     (case environ ''GH_TOKEN'' of
        None \<Rightarrow> Some ([], Raised ValueError)
      | Some github_token \<Rightarrow>
          if github_token = [] then Some ([], Raised ValueError)
          else (case get_pr_comments world github_token []
                       (arg_owner a) (arg_repo a) (arg_pr a) (arg_filter a) of
                  None \<Rightarrow> None
                | Some (sent, Inl e) \<Rightarrow> Some (sent, Error_printed e)
                | Some (sent, Inr comments) \<Rightarrow>
                   (case display_comments strftime comments of
                      Inl e \<Rightarrow> Some (sent, Error_printed e)
                    | Inr r \<Rightarrow> Some (sent, Displayed r))))"

section \<open>Vocabulary of the properties\<close>

text \<open>
  The flag of a thread as the filter sees it, and whether it can be read at
  all.
\<close>

definition is_resolved :: "json \<Rightarrow> bool" where
  "is_resolved thread =
     (case subscript thread ''isResolved'' of Inl e \<Rightarrow> False | Inr r \<Rightarrow> truthy r)"

definition has_flag :: "json \<Rightarrow> bool" where
  "has_flag thread =
     (case subscript thread ''isResolved'' of Inl e \<Rightarrow> False | Inr r \<Rightarrow> True)"

text \<open>A thread is included unless the filter is \<^verbatim>\<open>'unresolved'\<close> and its flag is true.\<close>

definition included :: "string \<Rightarrow> json \<Rightarrow> bool" where
  "included filter_type thread = (\<not> (filter_type = ''unresolved'' \<and> is_resolved thread))"

text \<open>
  \<open>thread_yields thread cs\<close>: the list \<open>cs\<close> holds one Comment for every comment
  record of the thread, in the order of the records.
\<close>

definition thread_yields :: "json \<Rightarrow> Comment list \<Rightarrow> bool" where
  "thread_yields thread cs =
     (case thread_nodes thread of Inl e \<Rightarrow> False
      | Inr nodes \<Rightarrow> list_all2 (\<lambda>n c. make_comment n = Inr c) nodes cs)"

text \<open>The two halves of \<open>process_page\<close>: the comments of an answer and its cursor.\<close>

definition page_comments :: "json \<Rightarrow> string \<Rightarrow> Comment list result" where
  "page_comments data filter_type =
     (case pull_request_of data of Inl e \<Rightarrow> Inl e
      | Inr pr_data \<Rightarrow> parse_response pr_data filter_type)"

definition page_cursor :: "json \<Rightarrow> json result" where
  "page_cursor data =
     (case pull_request_of data of Inl e \<Rightarrow> Inl e | Inr pr_data \<Rightarrow> next_cursor pr_data)"

text \<open>\<^verbatim>\<open>reviewThreads.pageInfo\<close> of an answer.\<close>

definition page_info :: "json \<Rightarrow> json result" where
  "page_info data =
     (case pull_request_of data of Inl e \<Rightarrow> Inl e
      | Inr pr_data \<Rightarrow>
     (case subscript pr_data ''reviewThreads'' of Inl e \<Rightarrow> Inl e
      | Inr rt \<Rightarrow> subscript rt ''pageInfo''))"

text \<open>
  \<open>has_next data c\<close>: the page info has a true \<^verbatim>\<open>hasNextPage\<close> and the true
  \<^verbatim>\<open>endCursor\<close> \<open>c\<close>. \<open>is_last data\<close>: \<^verbatim>\<open>hasNextPage\<close> is false, or it is true
  and \<^verbatim>\<open>endCursor\<close> is a false value (\<^verbatim>\<open>None\<close>, the empty string).
\<close>

definition has_next :: "json \<Rightarrow> json \<Rightarrow> bool" where
  "has_next data c =
     (case page_info data of Inl e \<Rightarrow> False
      | Inr info \<Rightarrow>
     (case subscript info ''hasNextPage'' of Inl e \<Rightarrow> False
      | Inr h \<Rightarrow> truthy h \<and> subscript info ''endCursor'' = Inr c \<and> truthy c))"

definition is_last :: "json \<Rightarrow> bool" where
  "is_last data =
     (case page_info data of Inl e \<Rightarrow> False
      | Inr info \<Rightarrow>
     (case subscript info ''hasNextPage'' of Inl e \<Rightarrow> False
      | Inr h \<Rightarrow>
          \<not> truthy h \<or>
          (case subscript info ''endCursor'' of Inl e \<Rightarrow> False | Inr c \<Rightarrow> \<not> truthy c)))"

text \<open>The requests of one call, given the cursors they carry.\<close>

definition requests :: "string \<Rightarrow> string \<Rightarrow> string \<Rightarrow> int \<Rightarrow> json list \<Rightarrow> request list" where
  "requests token owner repo pr_number cursors =
     map (\<lambda>c. \<lparr>bearer = token, variables = request_variables owner repo pr_number c\<rparr>)
       cursors"

text \<open>
  \<open>served world sent qs ps\<close>: after the history \<open>sent\<close>, the world answers the
  requests \<open>qs\<close>, sent one after the other, with the pages \<open>ps\<close>.
\<close>

fun served :: "world \<Rightarrow> request list \<Rightarrow> request list \<Rightarrow> json list \<Rightarrow> bool" where
  "served world sent [] [] = True"
| "served world sent (q # qs) (p # ps) =
     (world (sent @ [q]) = Inr p \<and> served world (sent @ [q]) qs ps)"
| "served world sent _ _ = False"

text \<open>
  An answer without the top-level comments of the pull request: the key
  \<^verbatim>\<open>comments\<close> is removed from \<^verbatim>\<open>data.repository.pullRequest\<close>.
\<close>

fun remove_key :: "string \<Rightarrow> json \<Rightarrow> json" where
  "remove_key k (JObj kvs) = JObj (filter (\<lambda>kv. fst kv \<noteq> k) kvs)"
| "remove_key k x = x"

fun update_key :: "string \<Rightarrow> (json \<Rightarrow> json) \<Rightarrow> json \<Rightarrow> json" where
  "update_key k g (JObj kvs) =
     JObj (map (\<lambda>kv. if fst kv = k then (k, g (snd kv)) else kv) kvs)"
| "update_key k g x = x"

definition drop_top_comments :: "json \<Rightarrow> json" where
  "drop_top_comments data =
     update_key ''data''
       (update_key ''repository'' (update_key ''pullRequest'' (remove_key ''comments''))) data"

definition drop_top_comments_world :: "world \<Rightarrow> world" where
  "drop_top_comments_world world sent = map_sum id drop_top_comments (world sent)"

section \<open>The page as the query describes it\<close>

text \<open>
  The properties of the flattener and of the driver are stated against a
  reading of the answer that owes nothing to the functions above: it is taken
  from the query (source lines 55 to 101) and from the words of the
  specification. \<open>entry\<close> is the field of an object, \<open>items\<close> the elements of
  a list.
\<close>

fun entry :: "json \<Rightarrow> string \<Rightarrow> json option" where
  "entry (JObj kvs) k = map_of kvs k"
| "entry _ k = None"

fun items :: "json \<Rightarrow> json list option" where
  "items (JArr xs) = Some xs"
| "items _ = None"

text \<open>
  A review thread is its resolution flag and the list of its comment records,
  \<^verbatim>\<open>isResolved\<close> and \<^verbatim>\<open>comments.nodes\<close>.
\<close>

type_synonym thread = "json \<times> json list"

definition thread_view :: "json \<Rightarrow> thread option" where
  "thread_view t =
     (case entry t ''isResolved'' of None \<Rightarrow> None
      | Some r \<Rightarrow>
     (case entry t ''comments'' of None \<Rightarrow> None
      | Some cs \<Rightarrow>
     (case entry cs ''nodes'' of None \<Rightarrow> None
      | Some ns \<Rightarrow>
     (case items ns of None \<Rightarrow> None
      | Some records \<Rightarrow> Some (r, records)))))"

text \<open>A page of thread data is the list of its threads, \<^verbatim>\<open>reviewThreads.nodes\<close>.\<close>

definition page_view :: "json \<Rightarrow> thread list option" where
  "page_view pr_data =
     (case entry pr_data ''reviewThreads'' of None \<Rightarrow> None
      | Some rt \<Rightarrow>
     (case entry rt ''nodes'' of None \<Rightarrow> None
      | Some ns \<Rightarrow>
     (case items ns of None \<Rightarrow> None
      | Some ts \<Rightarrow> those (map thread_view ts))))"


text \<open>
  The comment records that a filter keeps of a page, in the order of the
  threads and, within a thread, in the order of its records: a thread is left
  out when the filter is \<^verbatim>\<open>'unresolved'\<close> and its flag is true.
\<close>

definition kept_records :: "string \<Rightarrow> thread list \<Rightarrow> json list" where
  "kept_records filter_type threads =
     concat (map snd
       (filter (\<lambda>t. \<not> (filter_type = ''unresolved'' \<and> truthy (fst t))) threads))"

text \<open>
  \<open>converts records comments\<close>: the list \<open>comments\<close> holds, record for record
  and in the same order, the Comment made of each record.
\<close>

definition converts :: "json list \<Rightarrow> Comment list \<Rightarrow> bool" where
  "converts records comments = list_all2 (\<lambda>n c. make_comment n = Inr c) records comments"

text \<open>\<^verbatim>\<open>d.get(k)\<close> on the fields of a dict.\<close>

definition field_or_none :: "(string \<times> json) list \<Rightarrow> string \<Rightarrow> json" where
  "field_or_none kvs k = (case map_of kvs k of None \<Rightarrow> JNull | Some v \<Rightarrow> v)"

section \<open>The shape of an answer\<close>

text \<open>
  Answers of the shape the query of \<^verbatim>\<open>get_pr_comments\<close> asks for (source lines
  55 to 101), used for the examples.
\<close>

definition review_comment :: "json \<Rightarrow> json \<Rightarrow> json \<Rightarrow> json \<Rightarrow> json \<Rightarrow> json" where
  "review_comment b t a u oc =
     JObj [(''body'', b), (''createdAt'', t), (''author'', a), (''url'', u),
           (''originalCommit'', oc)]"

definition review_thread :: "json \<Rightarrow> json list \<Rightarrow> json" where
  "review_thread r cs =
     JObj [(''isResolved'', r), (''comments'', JObj [(''nodes'', JArr cs)])]"

definition pull_request :: "json \<Rightarrow> json list \<Rightarrow> json \<Rightarrow> json \<Rightarrow> json" where
  "pull_request top_comments threads end_cursor has_next_page =
     JObj [(''comments'', top_comments),
           (''reviewThreads'',
              JObj [(''nodes'', JArr threads),
                    (''pageInfo'',
                       JObj [(''endCursor'', end_cursor), (''hasNextPage'', has_next_page)])])]"

definition response :: "json \<Rightarrow> json" where
  "response pr_data = JObj [(''data'', JObj [(''repository'', JObj [(''pullRequest'', pr_data)])])]"

definition login :: "string \<Rightarrow> json" where
  "login name = JObj [(''login'', JStr name)]"

section \<open>Example answers\<close>

text \<open>
  Two pages of review threads. The first holds one unresolved thread and
  announces a next page under the cursor \<^verbatim>\<open>cursor1\<close>; the second holds a resolved
  thread with a comment of alice and an unresolved thread with a comment of
  bob, and is the last.
\<close>

definition no_top_comments :: json where
  "no_top_comments = JObj [(''nodes'', JArr [])]"

definition some_top_comments :: json where
  "some_top_comments =
     JObj [(''nodes'',
            JArr [JObj [(''body'', JStr ''thanks''),
                        (''createdAt'', JStr ''2024-04-30T09:00:00Z''),
                        (''author'', login ''dave''),
                        (''url'', JStr ''https://example.test/pr/1#c1'')]])]"

definition carol_comment :: json where
  "carol_comment =
     review_comment (JStr ''typo'') (JStr ''2024-04-30T08:00:00Z'') (login ''carol'')
       (JStr ''https://example.test/pr/1#r0'')
       (JObj [(''oid'', JStr ''fedcba9876''), (''message'', JStr ''docs'')])"

definition alice_comment :: json where
  "alice_comment =
     review_comment (JStr ''please rename'') (JStr ''2024-05-01T10:00:00Z'') (login ''alice'')
       (JStr ''https://example.test/pr/1#r1'')
       (JObj [(''oid'', JStr ''0123456789''), (''message'', JStr ''first'')])"

definition bob_comment :: json where
  "bob_comment =
     review_comment (JStr ''off by one'') (JStr ''2024-05-02T11:30:00Z'') (login ''bob'')
       (JStr ''https://example.test/pr/1#r2'')
       (JObj [(''oid'', JStr ''abc1234567''),
              (''message'', JStr ''fix bug\<newline>more detail'')])"

definition carol :: Comment where
  "carol = \<lparr>author = JStr ''carol'', body = JStr ''typo'',
            created_at = JStr ''2024-04-30T08:00:00Z'',
            url = JStr ''https://example.test/pr/1#r0'',
            commit_id = JStr ''fedcba9876'', commit_message = JStr ''docs''\<rparr>"

definition alice :: Comment where
  "alice = \<lparr>author = JStr ''alice'', body = JStr ''please rename'',
            created_at = JStr ''2024-05-01T10:00:00Z'',
            url = JStr ''https://example.test/pr/1#r1'',
            commit_id = JStr ''0123456789'', commit_message = JStr ''first''\<rparr>"

definition bob :: Comment where
  "bob = \<lparr>author = JStr ''bob'', body = JStr ''off by one'',
          created_at = JStr ''2024-05-02T11:30:00Z'',
          url = JStr ''https://example.test/pr/1#r2'',
          commit_id = JStr ''abc1234567'',
          commit_message = JStr ''fix bug\<newline>more detail''\<rparr>"

definition first_page :: "json \<Rightarrow> json" where
  "first_page top_comments =
     pull_request top_comments [review_thread (JBool False) [carol_comment]]
       (JStr ''cursor1'') (JBool True)"

definition second_page :: "json \<Rightarrow> json" where
  "second_page top_comments =
     pull_request top_comments
       [review_thread (JBool True) [alice_comment], review_thread (JBool False) [bob_comment]]
       JNull (JBool False)"

text \<open>A world that serves the second page to the cursor of the first.\<close>

definition paged_world :: "json \<Rightarrow> world" where
  "paged_world top_comments sent =
     (if subscript (variables (last sent)) ''review_after'' = Inr (JStr ''cursor1'')
      then Inr (response (second_page top_comments))
      else Inr (response (first_page top_comments)))"

definition example_requests :: "request list" where
  "example_requests =
     requests ''token'' ''zeronetworks'' ''zero-core'' 5875 [JNull, JStr ''cursor1'']"

text \<open>
  Two pages with several comments in a thread and several threads kept: the
  first announces a next page under the cursor \<^verbatim>\<open>cursor1\<close>, the second is the
  last.
\<close>

definition sample_record :: "string \<Rightarrow> string \<Rightarrow> json" where
  "sample_record who what =
     review_comment (JStr what) (JStr ''2024-05-01T10:00:00Z'') (login who)
       (JStr ''https://example.test/pr/1'')
       (JObj [(''oid'', JStr ''abc1234567''), (''message'', JStr ''fix bug'')])"

definition sample_comment :: "string \<Rightarrow> string \<Rightarrow> Comment" where
  "sample_comment who what =
     \<lparr>author = JStr who, body = JStr what, created_at = JStr ''2024-05-01T10:00:00Z'',
      url = JStr ''https://example.test/pr/1'',
      commit_id = JStr ''abc1234567'', commit_message = JStr ''fix bug''\<rparr>"

definition busy_first_page :: json where
  "busy_first_page =
     pull_request no_top_comments
       [review_thread (JBool False)
          [sample_record ''dana'' ''d1'', sample_record ''eve'' ''e1'',
           sample_record ''dana'' ''d2''],
        review_thread (JBool True)
          [sample_record ''finn'' ''f1'', sample_record ''finn'' ''f2''],
        review_thread (JBool False)
          [sample_record ''gus'' ''g1'', sample_record ''dana'' ''d3'']]
       (JStr ''cursor1'') (JBool True)"

definition busy_first_view :: "thread list" where
  "busy_first_view =
     [(JBool False,
       [sample_record ''dana'' ''d1'', sample_record ''eve'' ''e1'',
        sample_record ''dana'' ''d2'']),
      (JBool True, [sample_record ''finn'' ''f1'', sample_record ''finn'' ''f2'']),
      (JBool False, [sample_record ''gus'' ''g1'', sample_record ''dana'' ''d3''])]"

definition busy_last_page :: json where
  "busy_last_page =
     pull_request no_top_comments
       [review_thread (JBool True)
          [sample_record ''hal'' ''h1'', sample_record ''hal'' ''h2''],
        review_thread (JBool False)
          [sample_record ''ivy'' ''i1'', sample_record ''hal'' ''h3'',
           sample_record ''ivy'' ''i2'']]
       JNull (JBool False)"

definition busy_last_view :: "thread list" where
  "busy_last_view =
     [(JBool True, [sample_record ''hal'' ''h1'', sample_record ''hal'' ''h2'']),
      (JBool False,
       [sample_record ''ivy'' ''i1'', sample_record ''hal'' ''h3'',
        sample_record ''ivy'' ''i2''])]"


text \<open>
  A page that announces a next page without a cursor, and a world that would
  serve the second page to a second request.
\<close>

definition stalled_page :: json where
  "stalled_page =
     pull_request no_top_comments [review_thread (JBool False) [carol_comment]]
       JNull (JBool True)"

definition stalled_world :: world where
  "stalled_world sent =
     (if length sent = 1 then Inr (response stalled_page)
      else Inr (response (second_page no_top_comments)))"

text \<open>Comment records with a null author and with a null original commit.\<close>

definition ghost_comment :: json where
  "ghost_comment =
     review_comment (JStr ''why?'') (JStr ''2024-05-03T12:00:00Z'') JNull
       (JStr ''https://example.test/pr/1#r3'')
       (JObj [(''oid'', JStr ''abc1234567''), (''message'', JStr ''fix bug'')])"

definition ghost :: Comment where
  "ghost = \<lparr>author = JStr ''unknown'', body = JStr ''why?'',
            created_at = JStr ''2024-05-03T12:00:00Z'',
            url = JStr ''https://example.test/pr/1#r3'',
            commit_id = JStr ''abc1234567'', commit_message = JStr ''fix bug''\<rparr>"

definition null_commit_comment :: json where
  "null_commit_comment =
     review_comment (JStr ''why?'') (JStr ''2024-05-03T12:00:00Z'') (login ''erin'')
       (JStr ''https://example.test/pr/1#r3'') JNull"

definition one_thread_page :: "json \<Rightarrow> json \<Rightarrow> json" where
  "one_thread_page resolved comment =
     pull_request no_top_comments [review_thread resolved [comment]] JNull (JBool False)"

text \<open>An environment without \<^verbatim>\<open>GH_TOKEN\<close>, the default arguments, a date formatter.\<close>

definition bare_environ :: "string \<rightharpoonup> string" where
  "bare_environ = [''HOME'' \<mapsto> ''/root'']"

definition default_args :: args where
  "default_args = \<lparr>arg_owner = ''zeronetworks'', arg_repo = ''zero-core'', arg_pr = 5875,
                    arg_filter = ''unresolved''\<rparr>"

definition verbatim_date :: "string \<Rightarrow> string result" where
  "verbatim_date s = Inr s"

lemmas shape_defs = review_comment_def review_thread_def pull_request_def response_def login_def

lemmas flatten_defs = parse_response_def page_threads_def skip_thread_def thread_nodes_def
  make_comment_def

lemmas example_defs = no_top_comments_def carol_comment_def alice_comment_def bob_comment_def
  carol_def alice_def bob_def first_page_def second_page_def one_thread_page_def

lemmas busy_defs = busy_first_page_def busy_first_view_def busy_last_page_def
  busy_last_view_def sample_record_def no_top_comments_def


section \<open>The loops of the flattener as concatenations\<close>

lemma parse_comments_iff:
  "parse_comments ns acc = Inr out \<longleftrightarrow>
     (\<exists>cs. list_all2 (\<lambda>n c. make_comment n = Inr c) ns cs \<and> out = acc @ cs)"
proof (induction ns arbitrary: acc)
  case Nil
  show ?case by auto
next
  case (Cons n ns)
  show ?case
  proof (cases "make_comment n")
    case (Inl e)
    then show ?thesis by (auto simp: list_all2_Cons1)
  next
    case (Inr c)
    then show ?thesis by (auto simp: Cons.IH list_all2_Cons1)
  qed
qed

lemma parse_comments_Inr:
  "list_all2 (\<lambda>n c. make_comment n = Inr c) ns cs \<Longrightarrow>
     parse_comments ns acc = Inr (acc @ cs)"
  by (simp add: parse_comments_iff)

lemma thread_step:
  "(case thread_nodes t of Inl e \<Rightarrow> Inl e
    | Inr nodes \<Rightarrow>
        (case parse_comments nodes acc of Inl e \<Rightarrow> Inl e | Inr c' \<Rightarrow> K c')) = Inr out \<longleftrightarrow>
   (\<exists>cs. thread_yields t cs \<and> K (acc @ cs) = Inr out)"
proof (cases "thread_nodes t")
  case (Inl e)
  then show ?thesis by (simp add: thread_yields_def)
next
  case nodes: (Inr nodes)
  show ?thesis
  proof (cases "parse_comments nodes acc")
    case (Inl e)
    have "\<not> thread_yields t cs" for cs
      using parse_comments_Inr[of nodes cs acc] Inl nodes by (auto simp: thread_yields_def)
    with nodes Inl show ?thesis by simp
  next
    case (Inr c')
    then obtain cs0 where
      cs0: "list_all2 (\<lambda>n c. make_comment n = Inr c) nodes cs0" "c' = acc @ cs0"
      using parse_comments_iff by blast
    have uniq: "cs = cs0" if "thread_yields t cs" for cs
      using parse_comments_Inr[of nodes cs acc] that Inr nodes cs0(2)
      by (simp add: thread_yields_def)
    have y0: "thread_yields t cs0"
      using cs0(1) nodes by (simp add: thread_yields_def)
    have "(\<exists>cs. thread_yields t cs \<and> K (acc @ cs) = Inr out) \<longleftrightarrow> K (acc @ cs0) = Inr out"
      using uniq y0 by blast
    with nodes Inr cs0(2) show ?thesis by simp
  qed
qed

lemma ex_list_all2_Cons:
  "(\<exists>css. list_all2 R (t # ts) css \<and> out = acc @ concat css) \<longleftrightarrow>
   (\<exists>cs css. R t cs \<and> list_all2 R ts css \<and> out = (acc @ cs) @ concat css)"
proof
  assume "\<exists>css. list_all2 R (t # ts) css \<and> out = acc @ concat css"
  then obtain css where h: "list_all2 R (t # ts) css" "out = acc @ concat css" by blast
  then obtain z zs where "css = z # zs" "R t z" "list_all2 R ts zs"
    by (auto simp: list_all2_Cons1)
  with h(2) show "\<exists>cs css. R t cs \<and> list_all2 R ts css \<and> out = (acc @ cs) @ concat css"
    by auto
next
  assume "\<exists>cs css. R t cs \<and> list_all2 R ts css \<and> out = (acc @ cs) @ concat css"
  then obtain cs css where "R t cs" "list_all2 R ts css" "out = (acc @ cs) @ concat css"
    by blast
  then have "list_all2 R (t # ts) (cs # css) \<and> out = acc @ concat (cs # css)" by simp
  then show "\<exists>css. list_all2 R (t # ts) css \<and> out = acc @ concat css" by blast
qed

lemma skip_thread_unresolved:
  "has_flag t \<Longrightarrow> skip_thread ''unresolved'' t = Inr (is_resolved t)"
  by (simp add: skip_thread_def has_flag_def is_resolved_def split: sum.splits)

lemma skip_thread_no_flag:
  "\<not> has_flag t \<Longrightarrow> \<exists>e. skip_thread ''unresolved'' t = Inl e"
  by (simp add: skip_thread_def has_flag_def split: sum.splits)

lemma skip_thread_other:
  "f \<noteq> ''unresolved'' \<Longrightarrow> skip_thread f t = Inr False"
  by (simp add: skip_thread_def)

lemma parse_threads_unresolved_iff:
  "parse_threads ''unresolved'' ts acc = Inr out \<longleftrightarrow>
     list_all has_flag ts \<and>
     (\<exists>css. list_all2 thread_yields (filter (\<lambda>t. \<not> is_resolved t) ts) css \<and>
            out = acc @ concat css)"
proof (induction ts arbitrary: acc)
  case Nil
  show ?case by auto
next
  case (Cons t ts)
  show ?case
  proof (cases "has_flag t")
    case False
    with skip_thread_no_flag[of t] show ?thesis by auto
  next
    case True
    show ?thesis
    proof (cases "is_resolved t")
      case r: True
      with True show ?thesis by (simp add: skip_thread_unresolved Cons.IH)
    next
      case r: False
      have "parse_threads ''unresolved'' (t # ts) acc = Inr out \<longleftrightarrow>
            (\<exists>cs. thread_yields t cs \<and> parse_threads ''unresolved'' ts (acc @ cs) = Inr out)"
        using True r
          thread_step[where t=t and acc=acc and K="parse_threads ''unresolved'' ts" and out=out]
        by (simp add: skip_thread_unresolved)
      also have "\<dots> \<longleftrightarrow> list_all has_flag ts \<and> (\<exists>cs css. thread_yields t cs \<and>
            list_all2 thread_yields (filter (\<lambda>t. \<not> is_resolved t) ts) css \<and>
            out = (acc @ cs) @ concat css)"
        unfolding Cons.IH by blast
      also have "\<dots> \<longleftrightarrow> list_all has_flag (t # ts) \<and>
            (\<exists>css. list_all2 thread_yields (filter (\<lambda>t. \<not> is_resolved t) (t # ts)) css \<and>
               out = acc @ concat css)"
        using True r by (simp add: ex_list_all2_Cons)
      finally show ?thesis .
    qed
  qed
qed

lemma parse_threads_all_iff:
  assumes "f \<noteq> ''unresolved''"
  shows "parse_threads f ts acc = Inr out \<longleftrightarrow>
     (\<exists>css. list_all2 thread_yields ts css \<and> out = acc @ concat css)"
proof (induction ts arbitrary: acc)
  case Nil
  show ?case by auto
next
  case (Cons t ts)
  have "parse_threads f (t # ts) acc = Inr out \<longleftrightarrow>
        (\<exists>cs. thread_yields t cs \<and> parse_threads f ts (acc @ cs) = Inr out)"
    using thread_step[where t=t and acc=acc and K="parse_threads f ts" and out=out]
    by (simp add: skip_thread_other[OF assms])
  also have "\<dots> \<longleftrightarrow> (\<exists>cs css. thread_yields t cs \<and> list_all2 thread_yields ts css \<and>
        out = (acc @ cs) @ concat css)"
    unfolding Cons.IH by blast
  also have "\<dots> \<longleftrightarrow> (\<exists>css. list_all2 thread_yields (t # ts) css \<and> out = acc @ concat css)"
    by (simp only: ex_list_all2_Cons)
  finally show ?case .
qed

lemma included_simps:
  "included ''unresolved'' = (\<lambda>t. \<not> is_resolved t)"
  "f \<noteq> ''unresolved'' \<Longrightarrow> included f = (\<lambda>t. True)"
  by (simp_all add: fun_eq_iff included_def)

lemma parse_threads_iff:
  "parse_threads f ts acc = Inr out \<longleftrightarrow>
     (f = ''unresolved'' \<longrightarrow> list_all has_flag ts) \<and>
     (\<exists>css. list_all2 thread_yields (filter (included f) ts) css \<and> out = acc @ concat css)"
proof (cases "f = ''unresolved''")
  case True
  then show ?thesis by (simp add: parse_threads_unresolved_iff included_simps)
next
  case False
  then show ?thesis by (simp add: parse_threads_all_iff included_simps)
qed

section \<open>The loop of the pagination driver\<close>

lemma process_page_iff:
  "process_page data f = Inr (cs, c) \<longleftrightarrow>
     page_comments data f = Inr cs \<and> page_cursor data = Inr c"
  by (auto simp: process_page_def page_comments_def page_cursor_def split: sum.splits)

lemma page_cursor_eq:
  "page_cursor data =
     (case page_info data of Inl e \<Rightarrow> Inl e
      | Inr info \<Rightarrow>
     (case subscript info ''hasNextPage'' of Inl e \<Rightarrow> Inl e
      | Inr h \<Rightarrow> if truthy h then subscript info ''endCursor'' else Inr JNull))"
  by (simp add: page_cursor_def page_info_def next_cursor_def split: sum.splits)

lemma has_next_cursor:
  "has_next data c \<Longrightarrow> page_cursor data = Inr c \<and> truthy c"
  by (auto simp: has_next_def page_cursor_eq split: sum.splits)

lemma is_last_cursor:
  assumes "is_last data"
  shows "\<exists>c. page_cursor data = Inr c \<and> \<not> truthy c"
proof -
  from assms obtain info h where info: "page_info data = Inr info"
    and h: "subscript info ''hasNextPage'' = Inr h"
    and l: "\<not> truthy h \<or> (\<exists>c. subscript info ''endCursor'' = Inr c \<and> \<not> truthy c)"
    by (auto simp: is_last_def split: sum.splits)
  show ?thesis
  proof (cases "truthy h")
    case True
    with l obtain c where "subscript info ''endCursor'' = Inr c" "\<not> truthy c" by blast
    with info h True show ?thesis by (simp add: page_cursor_eq)
  next
    case False
    with info h show ?thesis by (simp add: page_cursor_eq)
  qed
qed

lemma fetch_loop_last:
  assumes "world (sent @ [\<lparr>bearer = token, variables = request_variables owner repo n c0\<rparr>]) = Inr p"
    and "process_page p f = Inr (cs, c)" and "\<not> truthy c"
  shows "fetch_loop world token owner repo n f sent c0 acc =
         Some (sent @ [\<lparr>bearer = token, variables = request_variables owner repo n c0\<rparr>], Inr (acc @ cs))"
  using assms by (subst fetch_loop.simps) (simp add: execute_query_def)

lemma fetch_loop_next:
  assumes "world (sent @ [\<lparr>bearer = token, variables = request_variables owner repo n c0\<rparr>]) = Inr p"
    and "process_page p f = Inr (cs, c)" and "truthy c"
  shows "fetch_loop world token owner repo n f sent c0 acc =
         fetch_loop world token owner repo n f
           (sent @ [\<lparr>bearer = token, variables = request_variables owner repo n c0\<rparr>]) c (acc @ cs)"
  using assms by (subst fetch_loop.simps) (simp add: execute_query_def)

lemma fetch_loop_run:
  assumes "list_all2 has_next pages cursors"
    and "is_last last_page"
    and "list_all2 (\<lambda>p cs. page_comments p f = Inr cs) (pages @ [last_page]) css"
    and "served world sent (requests token owner repo n (c0 # cursors)) (pages @ [last_page])"
  shows "fetch_loop world token owner repo n f sent c0 acc =
         Some (sent @ requests token owner repo n (c0 # cursors), Inr (acc @ concat css))"
  using assms
proof (induction pages arbitrary: cursors css sent c0 acc)
  case Nil
  then have cursors: "cursors = []" by simp
  from Nil(3) obtain cs where css: "css = [cs]" and cs: "page_comments last_page f = Inr cs"
    by (auto simp: list_all2_Cons1)
  from is_last_cursor[OF Nil(2)] cs obtain c where "process_page last_page f = Inr (cs, c)" "\<not> truthy c"
    by (auto simp: process_page_iff)
  with Nil(4) show ?case
    using fetch_loop_last[of world sent token owner repo n c0 last_page f cs c acc]
    by (simp add: cursors css requests_def)
next
  case (Cons p ps)
  from Cons.prems(1) obtain c cursors' where cursors: "cursors = c # cursors'"
    and c: "has_next p c" and rest: "list_all2 has_next ps cursors'"
    by (auto simp: list_all2_Cons1)
  from Cons.prems(3) obtain cs css' where css: "css = cs # css'"
    and cs: "page_comments p f = Inr cs"
    and rest_cs: "list_all2 (\<lambda>p cs. page_comments p f = Inr cs) (ps @ [last_page]) css'"
    by (auto simp: list_all2_Cons1)
  let ?q = "\<lparr>bearer = token, variables = request_variables owner repo n c0\<rparr>"
  from Cons.prems(4) have w: "world (sent @ [?q]) = Inr p"
    and srv: "served world (sent @ [?q]) (requests token owner repo n (c # cursors')) (ps @ [last_page])"
    by (simp_all add: cursors requests_def)
  from has_next_cursor[OF c] cs have pp: "process_page p f = Inr (cs, c)" and tc: "truthy c"
    by (auto simp: process_page_iff)
  have "fetch_loop world token owner repo n f sent c0 acc =
        fetch_loop world token owner repo n f (sent @ [?q]) c (acc @ cs)"
    by (rule fetch_loop_next[where world=world, OF w pp tc])
  also have "\<dots> = Some ((sent @ [?q]) @ requests token owner repo n (c # cursors'),
                       Inr ((acc @ cs) @ concat css'))"
    using rest Cons.prems(2) rest_cs srv by (rule Cons.IH)
  finally show ?case by (simp add: cursors css requests_def)
qed

section \<open>Comment records\<close>

lemma list_all2_ex_right: "list_all2 R xs ys \<Longrightarrow> x \<in> set xs \<Longrightarrow> \<exists>y. R x y"
  by (induction rule: list_all2_induct) auto

lemma bindE:
  assumes "(case x of Inl e \<Rightarrow> Inl e | Inr v \<Rightarrow> f v) = Inr r"
  obtains v where "x = Inr v" "f v = Inr r"
  using assms by (cases x) auto

lemma make_comment_Inr:
  assumes "make_comment comment = Inr c"
  obtains commit_data a where
    "dict_get comment ''originalCommit'' (JObj []) = Inr commit_data"
    "subscript comment ''author'' = Inr a"
    "(if truthy a then subscript a ''login'' else Inr (JStr ''unknown'')) = Inr (author c)"
    "subscript comment ''body'' = Inr (body c)"
    "subscript comment ''createdAt'' = Inr (created_at c)"
    "subscript comment ''url'' = Inr (url c)"
    "dict_get commit_data ''oid'' JNull = Inr (commit_id c)"
    "dict_get commit_data ''message'' JNull = Inr (commit_message c)"
  using assms unfolding make_comment_def
  by (elim bindE) auto

lemma make_comment_null_commit:
  assumes "subscript comment ''originalCommit'' = Inr JNull"
  shows "\<exists>e. make_comment comment = Inl e"
proof -
  from assms obtain kvs where "comment = JObj kvs" by (cases comment) auto
  with assms have null: "dict_get comment ''originalCommit'' (JObj []) = Inr JNull"
    by (auto split: option.splits)
  have "dict_get JNull ''oid'' JNull = Inl AttributeError" by simp
  show ?thesis
  proof (cases "make_comment comment")
    case (Inl e)
    then show ?thesis by blast
  next
    case (Inr c)
    then obtain cd where "dict_get comment ''originalCommit'' (JObj []) = Inr cd"
      and "dict_get cd ''oid'' JNull = Inr (commit_id c)"
      by (rule make_comment_Inr)
    with null show ?thesis by simp
  qed
qed

section \<open>The flattener against the page as the query describes it\<close>

lemma those_map_iff:
  "those (map f xs) = Some ys \<longleftrightarrow> list_all2 (\<lambda>x y. f x = Some y) xs ys"
proof (induction xs arbitrary: ys)
  case Nil
  show ?case by auto
next
  case (Cons x xs)
  show ?case
  proof (cases "f x")
    case None
    then show ?thesis by (auto simp: list_all2_Cons1)
  next
    case (Some y)
    then show ?thesis
      by (auto simp: list_all2_Cons1 Cons.IH[symmetric] split: option.splits)
  qed
qed

lemma entry_subscript: "entry x k = Some v \<Longrightarrow> subscript x k = Inr v"
  by (cases x) simp_all

lemma items_py_iter: "items x = Some xs \<Longrightarrow> py_iter x = Inr xs"
  by (cases x) simp_all

lemma thread_view_reads:
  assumes "thread_view t = Some v"
  shows "subscript t ''isResolved'' = Inr (fst v)" and "thread_nodes t = Inr (snd v)"
proof -
  from assms obtain r cs ns records where
    e: "entry t ''isResolved'' = Some r" "entry t ''comments'' = Some cs"
       "entry cs ''nodes'' = Some ns" "items ns = Some records" and v: "v = (r, records)"
    by (auto simp: thread_view_def split: option.splits)
  from e(1) v show "subscript t ''isResolved'' = Inr (fst v)"
    by (simp add: entry_subscript)
  from e(2,3,4) v show "thread_nodes t = Inr (snd v)"
    by (simp add: thread_nodes_def entry_subscript items_py_iter)
qed

lemma skip_thread_view:
  assumes "thread_view t = Some v"
  shows "skip_thread f t = Inr (f = ''unresolved'' \<and> truthy (fst v))"
  using thread_view_reads(1)[OF assms] by (simp add: skip_thread_def)

lemma page_view_reads:
  assumes "page_view pr_data = Some threads"
  shows "\<exists>ts. page_threads pr_data = Inr ts \<and>
              list_all2 (\<lambda>t v. thread_view t = Some v) ts threads"
proof -
  from assms obtain rt ns ts where
    e: "entry pr_data ''reviewThreads'' = Some rt" "entry rt ''nodes'' = Some ns"
       "items ns = Some ts" and th: "those (map thread_view ts) = Some threads"
    by (auto simp: page_view_def split: option.splits)
  from e have "page_threads pr_data = Inr ts"
    by (simp add: page_threads_def entry_subscript items_py_iter)
  with th show ?thesis by (auto simp: those_map_iff)
qed

lemma converts_append:
  "converts (xs @ ys) cs \<longleftrightarrow>
     (\<exists>cs1 cs2. cs = cs1 @ cs2 \<and> converts xs cs1 \<and> converts ys cs2)"
  unfolding converts_def
proof
  assume "list_all2 (\<lambda>n c. make_comment n = Inr c) (xs @ ys) cs"
  then show "\<exists>cs1 cs2. cs = cs1 @ cs2 \<and>
      list_all2 (\<lambda>n c. make_comment n = Inr c) xs cs1 \<and>
      list_all2 (\<lambda>n c. make_comment n = Inr c) ys cs2"
    by (auto simp: list_all2_append1)
next
  assume "\<exists>cs1 cs2. cs = cs1 @ cs2 \<and>
      list_all2 (\<lambda>n c. make_comment n = Inr c) xs cs1 \<and>
      list_all2 (\<lambda>n c. make_comment n = Inr c) ys cs2"
  then show "list_all2 (\<lambda>n c. make_comment n = Inr c) (xs @ ys) cs"
    by (auto intro: list_all2_appendI)
qed

lemma parse_comments_converts:
  "parse_comments ns acc = Inr out \<longleftrightarrow> (\<exists>cs. converts ns cs \<and> out = acc @ cs)"
  by (simp add: parse_comments_iff converts_def)

lemma parse_threads_view:
  assumes "list_all2 (\<lambda>t v. thread_view t = Some v) ts threads"
  shows "parse_threads f ts acc = Inr out \<longleftrightarrow>
           (\<exists>cs. converts (kept_records f threads) cs \<and> out = acc @ cs)"
  using assms
proof (induction ts threads arbitrary: acc rule: list_all2_induct)
  case Nil
  show ?case by (auto simp: kept_records_def converts_def)
next
  case (Cons t ts v threads)
  note skip = skip_thread_view[OF Cons.hyps(1), of f]
  note nodes = thread_view_reads(2)[OF Cons.hyps(1)]
  show ?case
  proof (cases "f = ''unresolved'' \<and> truthy (fst v)")
    case True
    then have "kept_records f (v # threads) = kept_records f threads"
      by (simp add: kept_records_def)
    with True skip Cons.IH[of acc] show ?thesis by simp
  next
    case False
    then have kept: "kept_records f (v # threads) = snd v @ kept_records f threads"
      by (auto simp: kept_records_def)
    have "parse_threads f (t # ts) acc = Inr out \<longleftrightarrow>
          (\<exists>c'. parse_comments (snd v) acc = Inr c' \<and> parse_threads f ts c' = Inr out)"
      using False skip nodes by (auto split: sum.splits)
    also have "\<dots> \<longleftrightarrow> (\<exists>cs1 cs2. converts (snd v) cs1 \<and>
          converts (kept_records f threads) cs2 \<and> out = (acc @ cs1) @ cs2)"
      unfolding parse_comments_converts Cons.IH by blast
    also have "\<dots> \<longleftrightarrow> (\<exists>cs. converts (kept_records f (v # threads)) cs \<and> out = acc @ cs)"
      unfolding kept converts_append by auto
    finally show ?thesis .
  qed
qed

lemma parse_response_view:
  assumes "page_view pr_data = Some threads"
  shows "parse_response pr_data f = Inr out \<longleftrightarrow> converts (kept_records f threads) out"
proof -
  from page_view_reads[OF assms] obtain ts where
    ts: "page_threads pr_data = Inr ts" "list_all2 (\<lambda>t v. thread_view t = Some v) ts threads"
    by blast
  show ?thesis
    using parse_threads_view[OF ts(2), of f "[]" out] ts(1)
    by (simp add: parse_response_def)
qed





lemma entry_login_truthy: "entry a ''login'' = Some l \<Longrightarrow> truthy a"
  by (cases a) auto

lemma make_comment_total:
  assumes "entry comment ''author'' = Some a"
    and "entry comment ''body'' = Some b" and "entry comment ''createdAt'' = Some t"
    and "entry comment ''url'' = Some u" and "entry comment ''originalCommit'' = Some (JObj oc)"
    and "(if truthy a then subscript a ''login'' else Inr (JStr ''unknown'')) = Inr au"
  shows "make_comment comment =
           Inr \<lparr>author = au, body = b, created_at = t, url = u,
                commit_id = field_or_none oc ''oid'',
                commit_message = field_or_none oc ''message''\<rparr>"
proof -
  from assms(1) obtain kvs where kvs: "comment = JObj kvs" by (cases comment) auto
  from assms(1-5) have "dict_get comment ''originalCommit'' (JObj []) = Inr (JObj oc)"
    "subscript comment ''author'' = Inr a" "subscript comment ''body'' = Inr b"
    "subscript comment ''createdAt'' = Inr t" "subscript comment ''url'' = Inr u"
    unfolding kvs by simp_all
  moreover have "dict_get (JObj oc) ''oid'' JNull = Inr (field_or_none oc ''oid'')"
    "dict_get (JObj oc) ''message'' JNull = Inr (field_or_none oc ''message'')"
    by (simp_all add: field_or_none_def split: option.splits)
  ultimately show ?thesis using assms(6) by (simp add: make_comment_def)
qed

section \<open>Answers without their top-level comments\<close>

lemma map_of_update_key:
  "map_of (map (\<lambda>kv. if fst kv = k then (k, g (snd kv)) else kv) kvs) k' =
     (if k' = k then map_option g (map_of kvs k) else map_of kvs k')"
  by (induction kvs) auto

lemma map_of_remove_key:
  "k' \<noteq> k \<Longrightarrow> map_of (filter (\<lambda>kv. fst kv \<noteq> k) kvs) k' = map_of kvs k'"
  by (induction kvs) auto

lemma subscript_update_key:
  "subscript (update_key k g x) k' =
     (if k' = k then map_sum id g (subscript x k) else subscript x k')"
  by (cases x) (simp_all add: map_of_update_key split: option.splits)

lemma subscript_remove_key:
  "k' \<noteq> k \<Longrightarrow> subscript (remove_key k x) k' = subscript x k'"
  by (cases x) (simp_all add: map_of_remove_key)

lemma pull_request_of_drop:
  "pull_request_of (drop_top_comments data) =
     map_sum id (remove_key ''comments'') (pull_request_of data)"
  by (simp add: pull_request_of_def drop_top_comments_def subscript_update_key
        split: sum.splits)

lemma parse_response_remove_comments:
  "parse_response (remove_key ''comments'' pr_data) f = parse_response pr_data f"
  by (simp add: parse_response_def page_threads_def subscript_remove_key)

lemma next_cursor_remove_comments:
  "next_cursor (remove_key ''comments'' pr_data) = next_cursor pr_data"
  by (simp add: next_cursor_def subscript_remove_key)

lemma process_page_drop:
  "process_page (drop_top_comments data) f = process_page data f"
  by (simp add: process_page_def pull_request_of_drop parse_response_remove_comments
        next_cursor_remove_comments split: sum.splits)

lemma process_page_cong:
  "drop_top_comments d = drop_top_comments d' \<Longrightarrow> process_page d f = process_page d' f"
  by (metis process_page_drop)

lemma fetch_loop_transfer:
  assumes "fetch_loop world token owner repo n f sent c0 acc = Some y"
    and "\<And>sent. map_sum id drop_top_comments (world sent) =
                 map_sum id drop_top_comments (world' sent)"
  shows "fetch_loop world' token owner repo n f sent c0 acc = Some y"
  using assms
proof (induction world token owner repo n f sent c0 acc y
         rule: fetch_loop.raw_induct[rotated 1, consumes 1, case_names step])
  case (step fl world token owner repo n f sent c0 acc y)
  let ?q = "\<lparr>bearer = token, variables = request_variables owner repo n c0\<rparr>"
  note rel = step.prems[of "sent @ [?q]"]
  show ?case
  proof (cases "world (sent @ [?q])")
    case (Inl e)
    with rel have "world' (sent @ [?q]) = Inl e"
      by (cases "world' (sent @ [?q])") simp_all
    with Inl step(2) show ?thesis
      by (subst fetch_loop.simps) (simp add: execute_query_def Let_def)
  next
    case (Inr d)
    with rel obtain d' where w': "world' (sent @ [?q]) = Inr d'"
      and dd: "drop_top_comments d = drop_top_comments d'"
      by (cases "world' (sent @ [?q])") simp_all
    have pp: "process_page d' f = process_page d f"
      using process_page_cong[OF dd] by simp
    show ?thesis
    proof (cases "process_page d f")
      case (Inl e)
      with Inr w' pp step(2) show ?thesis
        by (subst fetch_loop.simps) (simp add: execute_query_def Let_def)
    next
      case r: (Inr r)
      obtain cs c where r_eq: "r = (cs, c)" by (cases r)
      show ?thesis
      proof (cases "truthy c")
        case False
        with Inr w' pp r r_eq step(2) show ?thesis
          by (subst fetch_loop.simps) (simp add: execute_query_def Let_def)
      next
        case True
        with Inr r r_eq step(2)
        have "fl world token owner repo n f (sent @ [?q]) c (acc @ cs) = Some y"
          by (simp add: execute_query_def Let_def)
        then have "fetch_loop world' token owner repo n f (sent @ [?q]) c (acc @ cs) = Some y"
          using step.prems by (rule step(1))
        with True w' pp r r_eq show ?thesis
          by (subst fetch_loop.simps) (simp add: execute_query_def Let_def)
      qed
    qed
  qed
qed

lemma fetch_loop_same:
  assumes "\<And>sent. map_sum id drop_top_comments (world sent) =
                 map_sum id drop_top_comments (world' sent)"
  shows "fetch_loop world token owner repo n f sent c0 acc =
         fetch_loop world' token owner repo n f sent c0 acc"
proof (cases "fetch_loop world token owner repo n f sent c0 acc")
  case (Some y)
  with fetch_loop_transfer[OF Some assms] show ?thesis by simp
next
  case None
  show ?thesis
  proof (cases "fetch_loop world' token owner repo n f sent c0 acc")
    case n: None
    with None show ?thesis by simp
  next
    case (Some y)
    have "fetch_loop world token owner repo n f sent c0 acc = Some y"
      by (rule fetch_loop_transfer[OF Some]) (simp add: assms)
    with None show ?thesis by simp
  qed
qed

lemma fetch_loop_same_world:
  assumes "drop_top_comments_world world = drop_top_comments_world world'"
  shows "fetch_loop world token owner repo n f sent c0 acc =
         fetch_loop world' token owner repo n f sent c0 acc"
proof (rule fetch_loop_same)
  fix sent
  from assms have "drop_top_comments_world world sent = drop_top_comments_world world' sent"
    by simp
  then show "map_sum id drop_top_comments (world sent) =
             map_sum id drop_top_comments (world' sent)"
    by (simp add: drop_top_comments_world_def)
qed

section \<open>The example answers\<close>

lemma paged_has_next: "has_next (response (first_page t)) (JStr ''cursor1'')"
  by (simp add: has_next_def page_info_def pull_request_of_def example_defs shape_defs)

lemma paged_is_last: "is_last (response (second_page t))"
  by (simp add: is_last_def page_info_def pull_request_of_def example_defs shape_defs)

lemma paged_comments:
  "page_comments (response (first_page t)) ''unresolved'' = Inr [carol]"
  "page_comments (response (second_page t)) ''unresolved'' = Inr [bob]"
  by (simp_all add: page_comments_def pull_request_of_def example_defs shape_defs flatten_defs)

lemma paged_served:
  "served (paged_world t) [] example_requests
     [response (first_page t), response (second_page t)]"
  by (simp add: example_requests_def requests_def paged_world_def request_variables_def)

lemma paged_worlds_agree:
  "drop_top_comments_world (paged_world no_top_comments) =
   drop_top_comments_world (paged_world some_top_comments)"
  by (rule ext)
     (simp add: drop_top_comments_world_def paged_world_def drop_top_comments_def
        first_page_def second_page_def shape_defs)

lemma make_comment_sample: "make_comment (sample_record who what) = Inr (sample_comment who what)"
  by (simp add: make_comment_def sample_record_def sample_comment_def shape_defs)

lemma converts_Cons:
  "converts (n # ns) (c # cs) \<longleftrightarrow> make_comment n = Inr c \<and> converts ns cs"
  "converts [] []"
  by (simp_all add: converts_def)

lemma busy_first_page_view: "page_view busy_first_page = Some busy_first_view"
  by (simp add: page_view_def thread_view_def busy_defs pull_request_def review_thread_def)






section \<open>The flattener\<close>

text \<open>
  C1. Filter correctness. Take a page of thread data as the query describes it:
  a list of threads, each a resolution flag and a list of comment records.
  Under the filter \<^verbatim>\<open>'unresolved'\<close> the flattener returns a list exactly when
  every record of the threads whose flag is not true converts to a Comment, and
  the list is then these Comments, record for record, in the order of the
  threads and of the records in them: no comment of a thread whose flag is true
  is in it. Under the filter \<^verbatim>\<open>'all'\<close> the same holds of the records of all the
  threads, resolved or not, so every comment of every thread is in the list.
\<close>

theorem filter_correctness:
  assumes "page_view pr_data = Some threads"
  shows "(parse_response pr_data ''unresolved'' = Inr out \<longleftrightarrow>
            converts (concat (map snd (filter (\<lambda>t. \<not> truthy (fst t)) threads))) out) \<and>
         (parse_response pr_data ''all'' = Inr out \<longleftrightarrow>
            converts (concat (map snd threads)) out)"
  using parse_response_view[OF assms, of "''unresolved''" out]
    parse_response_view[OF assms, of "''all''" out]
  by (simp add: kept_records_def)

text \<open>
  On the first busy page, with three, two and two comments in its threads and
  the second thread resolved, the filter \<^verbatim>\<open>'unresolved'\<close> keeps the five comments
  of the first and the third thread and the filter \<^verbatim>\<open>'all'\<close> keeps all seven.
\<close>

theorem filter_correctness_witness:
  "page_view busy_first_page = Some busy_first_view \<and>
   converts (concat (map snd (filter (\<lambda>t. \<not> truthy (fst t)) busy_first_view)))
     [sample_comment ''dana'' ''d1'', sample_comment ''eve'' ''e1'',
      sample_comment ''dana'' ''d2'', sample_comment ''gus'' ''g1'',
      sample_comment ''dana'' ''d3''] \<and>
   parse_response busy_first_page ''unresolved'' =
     Inr [sample_comment ''dana'' ''d1'', sample_comment ''eve'' ''e1'',
          sample_comment ''dana'' ''d2'', sample_comment ''gus'' ''g1'',
          sample_comment ''dana'' ''d3''] \<and>
   converts (concat (map snd busy_first_view))
     [sample_comment ''dana'' ''d1'', sample_comment ''eve'' ''e1'',
      sample_comment ''dana'' ''d2'', sample_comment ''finn'' ''f1'',
      sample_comment ''finn'' ''f2'', sample_comment ''gus'' ''g1'',
      sample_comment ''dana'' ''d3''] \<and>
   parse_response busy_first_page ''all'' =
     Inr [sample_comment ''dana'' ''d1'', sample_comment ''eve'' ''e1'',
          sample_comment ''dana'' ''d2'', sample_comment ''finn'' ''f1'',
          sample_comment ''finn'' ''f2'', sample_comment ''gus'' ''g1'',
          sample_comment ''dana'' ''d3'']"
proof -
  have u: "converts (concat (map snd (filter (\<lambda>t. \<not> truthy (fst t)) busy_first_view)))
     [sample_comment ''dana'' ''d1'', sample_comment ''eve'' ''e1'',
      sample_comment ''dana'' ''d2'', sample_comment ''gus'' ''g1'',
      sample_comment ''dana'' ''d3'']"
    by (simp add: busy_first_view_def converts_Cons make_comment_sample)
  have a: "converts (concat (map snd busy_first_view))
     [sample_comment ''dana'' ''d1'', sample_comment ''eve'' ''e1'',
      sample_comment ''dana'' ''d2'', sample_comment ''finn'' ''f1'',
      sample_comment ''finn'' ''f2'', sample_comment ''gus'' ''g1'',
      sample_comment ''dana'' ''d3'']"
    by (simp add: busy_first_view_def converts_Cons make_comment_sample)
  from filter_correctness[OF busy_first_page_view] u a busy_first_page_view
  show ?thesis by blast
qed

text \<open>
  C2. The commit fields are meant to be both present or both absent: taken
  from the original commit of the record when there is one, and both left
  absent otherwise. The code does so for a record without the key
  \<^verbatim>\<open>originalCommit\<close> (the default \<^verbatim>\<open>{}\<close> of source line 138) and for a record
  whose original commit is an object with \<^verbatim>\<open>oid\<close> and \<^verbatim>\<open>message\<close>. For a record
  whose \<^verbatim>\<open>originalCommit\<close> is null, which is how the answer says that there is no
  original commit, \<^verbatim>\<open>commit_data\<close> is \<^verbatim>\<open>None\<close> and source line 145 raises
  AttributeError: no Comment is made and the flattener returns no list, under
  either filter.
\<close>

theorem original_commit_null_slip:
  "make_comment (review_comment b t (login name) u JNull) = Inl AttributeError \<and>
   make_comment null_commit_comment = Inl AttributeError \<and>
   parse_response (one_thread_page (JBool False) null_commit_comment) ''unresolved'' =
     Inl AttributeError \<and>
   parse_response (one_thread_page (JBool False) null_commit_comment) ''all'' =
     Inl AttributeError \<and>
   make_comment (JObj [(''body'', b), (''createdAt'', t), (''author'', login name), (''url'', u)]) =
     Inr \<lparr>author = JStr name, body = b, created_at = t, url = u,
          commit_id = JNull, commit_message = JNull\<rparr> \<and>
   make_comment (review_comment b t (login name) u (JObj [(''oid'', oid), (''message'', msg)])) =
     Inr \<lparr>author = JStr name, body = b, created_at = t, url = u,
          commit_id = oid, commit_message = msg\<rparr>"
  by (simp add: null_commit_comment_def example_defs shape_defs flatten_defs)

text \<open>
  C5. Missing-author fallback. The author object of a record is absent when
  its \<^verbatim>\<open>author\<close> is null (a deleted account). A Comment made of such a record has
  the author \<^verbatim>\<open>unknown\<close>, and a Comment made of a record whose author object has
  a \<^verbatim>\<open>login\<close> has that login as its author. Moreover the Comment is made: a
  record with a body, a creation time, a URL and an original commit object
  converts, with the author \<^verbatim>\<open>unknown\<close> when its author is null and with the login
  when its author object has one.
\<close>

theorem author_fallback:
  "(entry comment ''author'' = Some JNull \<and> make_comment comment = Inr c \<longrightarrow>
      author c = JStr ''unknown'') \<and>
   (entry comment ''author'' = Some a \<and> entry a ''login'' = Some l \<and>
    make_comment comment = Inr c \<longrightarrow> author c = l) \<and>
   (entry comment ''body'' = Some b \<and> entry comment ''createdAt'' = Some t \<and>
    entry comment ''url'' = Some u \<and> entry comment ''originalCommit'' = Some (JObj oc) \<longrightarrow>
      (entry comment ''author'' = Some JNull \<longrightarrow>
         make_comment comment =
           Inr \<lparr>author = JStr ''unknown'', body = b, created_at = t, url = u,
                commit_id = field_or_none oc ''oid'',
                commit_message = field_or_none oc ''message''\<rparr>) \<and>
      (entry comment ''author'' = Some a \<and> entry a ''login'' = Some l \<longrightarrow>
         make_comment comment =
           Inr \<lparr>author = l, body = b, created_at = t, url = u,
                commit_id = field_or_none oc ''oid'',
                commit_message = field_or_none oc ''message''\<rparr>))"
proof (intro conjI impI)
  assume h: "entry comment ''author'' = Some JNull \<and> make_comment comment = Inr c"
  then obtain a' where "subscript comment ''author'' = Inr a'"
    and "(if truthy a' then subscript a' ''login'' else Inr (JStr ''unknown'')) = Inr (author c)"
    by (auto elim: make_comment_Inr)
  moreover from h have "subscript comment ''author'' = Inr JNull"
    by (simp add: entry_subscript)
  ultimately show "author c = JStr ''unknown''" by simp
next
  assume h: "entry comment ''author'' = Some a \<and> entry a ''login'' = Some l \<and>
    make_comment comment = Inr c"
  then obtain a' where "subscript comment ''author'' = Inr a'"
    and "(if truthy a' then subscript a' ''login'' else Inr (JStr ''unknown'')) = Inr (author c)"
    by (auto elim: make_comment_Inr)
  moreover from h have "subscript comment ''author'' = Inr a" "subscript a ''login'' = Inr l"
    "truthy a"
    by (simp_all add: entry_subscript entry_login_truthy)
  ultimately show "author c = l" by simp
next
  assume w: "entry comment ''body'' = Some b \<and> entry comment ''createdAt'' = Some t \<and>
    entry comment ''url'' = Some u \<and> entry comment ''originalCommit'' = Some (JObj oc)"
    and n: "entry comment ''author'' = Some JNull"
  show "make_comment comment =
           Inr \<lparr>author = JStr ''unknown'', body = b, created_at = t, url = u,
                commit_id = field_or_none oc ''oid'',
                commit_message = field_or_none oc ''message''\<rparr>"
    using w n by (intro make_comment_total[where a = JNull]) simp_all
next
  assume w: "entry comment ''body'' = Some b \<and> entry comment ''createdAt'' = Some t \<and>
    entry comment ''url'' = Some u \<and> entry comment ''originalCommit'' = Some (JObj oc)"
    and n: "entry comment ''author'' = Some a \<and> entry a ''login'' = Some l"
  show "make_comment comment =
           Inr \<lparr>author = l, body = b, created_at = t, url = u,
                commit_id = field_or_none oc ''oid'',
                commit_message = field_or_none oc ''message''\<rparr>"
    using w n by (intro make_comment_total[where a = a])
      (simp_all add: entry_login_truthy entry_subscript)
qed

theorem author_fallback_witness:
  "entry ghost_comment ''author'' = Some JNull \<and>
   entry ghost_comment ''body'' = Some (JStr ''why?'') \<and>
   entry ghost_comment ''createdAt'' = Some (JStr ''2024-05-03T12:00:00Z'') \<and>
   entry ghost_comment ''url'' = Some (JStr ''https://example.test/pr/1#r3'') \<and>
   entry ghost_comment ''originalCommit'' =
     Some (JObj [(''oid'', JStr ''abc1234567''), (''message'', JStr ''fix bug'')]) \<and>
   make_comment ghost_comment = Inr ghost \<and> author ghost = JStr ''unknown'' \<and>
   entry bob_comment ''author'' = Some (login ''bob'') \<and>
   entry (login ''bob'') ''login'' = Some (JStr ''bob'') \<and>
   make_comment bob_comment = Inr bob \<and> author bob = JStr ''bob''"
proof -
  have g: "entry ghost_comment ''author'' = Some JNull"
    "entry ghost_comment ''body'' = Some (JStr ''why?'') \<and>
     entry ghost_comment ''createdAt'' = Some (JStr ''2024-05-03T12:00:00Z'') \<and>
     entry ghost_comment ''url'' = Some (JStr ''https://example.test/pr/1#r3'') \<and>
     entry ghost_comment ''originalCommit'' =
       Some (JObj [(''oid'', JStr ''abc1234567''), (''message'', JStr ''fix bug'')])"
    by (simp_all add: ghost_comment_def review_comment_def)
  have b: "entry bob_comment ''author'' = Some (login ''bob'')"
    "entry (login ''bob'') ''login'' = Some (JStr ''bob'')"
    "entry bob_comment ''body'' = Some (JStr ''off by one'') \<and>
     entry bob_comment ''createdAt'' = Some (JStr ''2024-05-02T11:30:00Z'') \<and>
     entry bob_comment ''url'' = Some (JStr ''https://example.test/pr/1#r2'') \<and>
     entry bob_comment ''originalCommit'' =
       Some (JObj [(''oid'', JStr ''abc1234567''),
                   (''message'', JStr ''fix bug\<newline>more detail'')])"
    by (simp_all add: bob_comment_def review_comment_def login_def)
  from author_fallback[of ghost_comment ghost JNull "JNull" "JStr ''why?''"
         "JStr ''2024-05-03T12:00:00Z''" "JStr ''https://example.test/pr/1#r3''"
         "[(''oid'', JStr ''abc1234567''), (''message'', JStr ''fix bug'')]"] g
  have mg: "make_comment ghost_comment = Inr ghost"
    by (simp add: ghost_def field_or_none_def)
  from author_fallback[of bob_comment bob "login ''bob''" "JStr ''bob''" "JStr ''off by one''"
         "JStr ''2024-05-02T11:30:00Z''" "JStr ''https://example.test/pr/1#r2''"
         "[(''oid'', JStr ''abc1234567''), (''message'', JStr ''fix bug\<newline>more detail'')]"] b
  have mb: "make_comment bob_comment = Inr bob"
    by (simp add: bob_def field_or_none_def)
  from author_fallback[of ghost_comment ghost] g(1) mg
  have ag: "author ghost = JStr ''unknown''" by blast
  from author_fallback[of bob_comment bob "login ''bob''" "JStr ''bob''"] b(1,2) mb
  have ab: "author bob = JStr ''bob''" by blast
  from g b mg mb ag ab show ?thesis by blast
qed

text \<open>
  C8. The end-to-end example: thread A is resolved and holds one comment by
  alice, thread B is unresolved and holds one comment by bob with the commit
  oid \<^verbatim>\<open>abc1234567\<close> and the message \<^verbatim>\<open>fix bug\<close>, a line feed, \<^verbatim>\<open>more detail\<close>.
  Whatever the other fields are, the filter \<^verbatim>\<open>'unresolved'\<close> gives exactly bob's
  Comment, its short commit id is \<^verbatim>\<open>abc1234\<close> and the commit line displayed for
  it is \<^verbatim>\<open>fix bug\<close>.
\<close>

theorem end_to_end_example:
  fixes b1 t1 u1 oc1 b2 t2 u2 top_comments c h :: json
  defines "page \<equiv> pull_request top_comments
       [review_thread (JBool True) [review_comment b1 t1 (login ''alice'') u1 oc1],
        review_thread (JBool False)
          [review_comment b2 t2 (login ''bob'') u2
             (JObj [(''oid'', JStr ''abc1234567''),
                    (''message'', JStr ''fix bug\<newline>more detail'')])]] c h"
    and "bobs \<equiv> \<lparr>author = JStr ''bob'', body = b2, created_at = t2, url = u2,
            commit_id = JStr ''abc1234567'',
            commit_message = JStr ''fix bug\<newline>more detail''\<rparr>"
  shows "parse_response page ''unresolved'' = Inr [bobs] \<and>
         short_commit_id bobs = Inr (JStr ''abc1234'') \<and>
         commit_msg bobs = Inr ''fix bug'' \<and>
         commit_info bobs = Inr (Commit_cell (JStr ''abc1234'') ''fix bug'')"
  by (simp add: page_def bobs_def shape_defs flatten_defs short_commit_id_def commit_msg_def
        commit_info_def first_line_def)

text \<open>
  C9, as stated, fails: under the filter \<^verbatim>\<open>'unresolved'\<close> a resolved thread is
  skipped before its comments are read, so a null original commit in it raises
  nothing and the flattener returns a list.
\<close>

theorem null_original_commit_counterexample:
  "subscript null_commit_comment ''originalCommit'' = Inr JNull \<and>
   parse_response (one_thread_page (JBool True) null_commit_comment) ''unresolved'' = Inr []"
  by (simp add: null_commit_comment_def example_defs shape_defs flatten_defs)

text \<open>
  C9, amended. If a thread of the page is not skipped (the filter is not
  \<^verbatim>\<open>'unresolved'\<close>, or the flag of the thread is not true) and one of its comment
  records has the key \<^verbatim>\<open>originalCommit\<close> with the value null, the flattener
  raises an exception and returns no list.
\<close>

theorem null_original_commit_raises:
  assumes "page_threads pr_data = Inr threads"
    and "thread \<in> set threads" and "included filter_type thread"
    and "thread_nodes thread = Inr nodes"
    and "comment \<in> set nodes" and "subscript comment ''originalCommit'' = Inr JNull"
  shows "\<exists>e. parse_response pr_data filter_type = Inl e"
proof (cases "parse_response pr_data filter_type")
  case (Inl e)
  then show ?thesis by blast
next
  case (Inr out)
  then have "parse_threads filter_type threads [] = Inr out"
    using assms(1) by (simp add: parse_response_def)
  then obtain tcs where
    tcs: "list_all2 thread_yields (filter (included filter_type) threads) tcs"
    using parse_threads_iff[of filter_type threads "[]" out] by blast
  have "thread \<in> set (filter (included filter_type) threads)"
    using assms(2,3) by simp
  with tcs obtain cs where "thread_yields thread cs"
    by (rule list_all2_ex_right[THEN exE])
  with assms(4) have "list_all2 (\<lambda>n c. make_comment n = Inr c) nodes cs"
    by (simp add: thread_yields_def)
  from this assms(5) obtain c where "make_comment comment = Inr c"
    by (rule list_all2_ex_right[THEN exE])
  with make_comment_null_commit[OF assms(6)] show ?thesis by simp
qed

theorem null_original_commit_raises_witness:
  "page_threads (one_thread_page (JBool False) null_commit_comment) =
     Inr [review_thread (JBool False) [null_commit_comment]] \<and>
   review_thread (JBool False) [null_commit_comment] \<in>
     set [review_thread (JBool False) [null_commit_comment]] \<and>
   included ''unresolved'' (review_thread (JBool False) [null_commit_comment]) \<and>
   thread_nodes (review_thread (JBool False) [null_commit_comment]) = Inr [null_commit_comment] \<and>
   null_commit_comment \<in> set [null_commit_comment] \<and>
   subscript null_commit_comment ''originalCommit'' = Inr JNull \<and>
   (\<exists>e. parse_response (one_thread_page (JBool False) null_commit_comment) ''unresolved'' = Inl e)"
proof -
  have 1: "page_threads (one_thread_page (JBool False) null_commit_comment) =
     Inr [review_thread (JBool False) [null_commit_comment]]"
    by (simp add: page_threads_def one_thread_page_def pull_request_def)
  have 2: "review_thread (JBool False) [null_commit_comment] \<in>
     set [review_thread (JBool False) [null_commit_comment]]"
    by simp
  have 3: "included ''unresolved'' (review_thread (JBool False) [null_commit_comment])"
    by (simp add: included_def is_resolved_def review_thread_def)
  have 4: "thread_nodes (review_thread (JBool False) [null_commit_comment]) =
     Inr [null_commit_comment]"
    by (simp add: thread_nodes_def review_thread_def)
  have 5: "null_commit_comment \<in> set [null_commit_comment]" by simp
  have 6: "subscript null_commit_comment ''originalCommit'' = Inr JNull"
    by (simp add: null_commit_comment_def review_comment_def)
  from null_original_commit_raises[OF 1 2 3 4 5 6] 1 2 3 4 5 6 show ?thesis by blast
qed

text \<open>
  C10. For every filter string other than \<^verbatim>\<open>'unresolved'\<close> no thread is skipped,
  and the flattener gives on every page what it gives under the filter
  \<^verbatim>\<open>'all'\<close>, the same list or the same exception.
\<close>

theorem other_filters_as_all:
  assumes "filter_type \<noteq> ''unresolved''"
  shows "skip_thread filter_type thread = Inr False \<and>
         parse_response pr_data filter_type = parse_response pr_data ''all''"
proof -
  have "parse_threads filter_type ts acc = parse_threads ''all'' ts acc" for ts acc
    by (induction ts arbitrary: acc) (simp_all add: skip_thread_other assms split: sum.splits)
  then show ?thesis
    by (simp add: parse_response_def skip_thread_other assms split: sum.splits)
qed

theorem other_filters_as_all_witness:
  "''resolved'' \<noteq> ''unresolved'' \<and>
   skip_thread ''resolved'' (review_thread (JBool True) [alice_comment]) = Inr False \<and>
   parse_response (second_page no_top_comments) ''resolved'' =
     parse_response (second_page no_top_comments) ''all''"
  using other_filters_as_all[of "''resolved''" "review_thread (JBool True) [alice_comment]"
          "second_page no_top_comments"]
  by simp

section \<open>The pagination driver\<close>

text \<open>
  C3, as stated, fails: a page with a true \<^verbatim>\<open>hasNextPage\<close> and a null \<^verbatim>\<open>endCursor\<close>
  ends the loop. The world would answer a second request with the last page,
  and one request is made.
\<close>

theorem has_next_page_counterexample:
  "page_info (response stalled_page) =
     Inr (JObj [(''endCursor'', JNull), (''hasNextPage'', JBool True)]) \<and>
   stalled_world (requests ''token'' ''zeronetworks'' ''zero-core'' 5875 [JNull, JNull]) =
     Inr (response (second_page no_top_comments)) \<and>
   get_pr_comments stalled_world ''token'' [] ''zeronetworks'' ''zero-core'' 5875 ''unresolved'' =
     Some (requests ''token'' ''zeronetworks'' ''zero-core'' 5875 [JNull], Inr [carol])"
proof -
  have 1: "page_info (response stalled_page) =
             Inr (JObj [(''endCursor'', JNull), (''hasNextPage'', JBool True)])"
    by (simp add: page_info_def pull_request_of_def stalled_page_def example_defs shape_defs)
  have 2: "stalled_world (requests ''token'' ''zeronetworks'' ''zero-core'' 5875 [JNull, JNull]) =
             Inr (response (second_page no_top_comments))"
    by (simp add: stalled_world_def requests_def)
  have w: "stalled_world ([] @ [\<lparr>bearer = ''token'',
             variables = request_variables ''zeronetworks'' ''zero-core'' 5875 JNull\<rparr>]) =
           Inr (response stalled_page)"
    by (simp add: stalled_world_def)
  have p: "process_page (response stalled_page) ''unresolved'' = Inr ([carol], JNull)"
    by (simp add: process_page_def pull_request_of_def next_cursor_def stalled_page_def
          example_defs shape_defs flatten_defs)
  have "fetch_loop stalled_world ''token'' ''zeronetworks'' ''zero-core'' 5875 ''unresolved''
          [] JNull [] =
        Some ([] @ [\<lparr>bearer = ''token'',
                variables = request_variables ''zeronetworks'' ''zero-core'' 5875 JNull\<rparr>],
              Inr ([] @ [carol]))"
    by (rule fetch_loop_last[where world = stalled_world, OF w p]) simp
  then have 3: "get_pr_comments stalled_world ''token'' [] ''zeronetworks'' ''zero-core'' 5875
                  ''unresolved'' =
                Some (requests ''token'' ''zeronetworks'' ''zero-core'' 5875 [JNull], Inr [carol])"
    by (simp add: get_pr_comments_def requests_def)
  from 1 2 3 show ?thesis by blast
qed

text \<open>
  C3, amended. Let the world answer the requests of a call with N pages that
  are all processed without an exception. If each of the first N - 1 pages has
  a true \<^verbatim>\<open>hasNextPage\<close> and a true (non-null, non-empty) \<^verbatim>\<open>endCursor\<close>, and the
  last page has a false \<^verbatim>\<open>hasNextPage\<close> or a false \<^verbatim>\<open>endCursor\<close>, then the loop
  returns after exactly N requests: the first carries no cursor, each further
  one the \<^verbatim>\<open>endCursor\<close> of the page before it, and no request follows the last
  page. The returned list is the concatenation of the comments of the pages.
\<close>

theorem pagination:
  assumes "list_all2 has_next pages cursors"
    and "is_last last_page"
    and "list_all2 (\<lambda>p cs. page_comments p filter_type = Inr cs) (pages @ [last_page]) css"
    and "served world sent (requests token owner repo pr_number (JNull # cursors))
           (pages @ [last_page])"
  shows "get_pr_comments world token sent owner repo pr_number filter_type =
           Some (sent @ requests token owner repo pr_number (JNull # cursors),
                 Inr (concat css)) \<and>
         length (requests token owner repo pr_number (JNull # cursors)) = length pages + 1"
proof -
  have "length cursors = length pages"
    using assms(1) by (simp add: list_all2_lengthD)
  then show ?thesis
    using fetch_loop_run[OF assms, of "[]"]
    by (simp add: get_pr_comments_def requests_def)
qed

theorem pagination_witness:
  "list_all2 has_next [response (first_page no_top_comments)] [JStr ''cursor1''] \<and>
   is_last (response (second_page no_top_comments)) \<and>
   list_all2 (\<lambda>p cs. page_comments p ''unresolved'' = Inr cs)
     ([response (first_page no_top_comments)] @ [response (second_page no_top_comments)])
     [[carol], [bob]] \<and>
   served (paged_world no_top_comments) []
     (requests ''token'' ''zeronetworks'' ''zero-core'' 5875 (JNull # [JStr ''cursor1'']))
     ([response (first_page no_top_comments)] @ [response (second_page no_top_comments)]) \<and>
   get_pr_comments (paged_world no_top_comments) ''token'' [] ''zeronetworks'' ''zero-core'' 5875
     ''unresolved'' =
     Some ([] @ requests ''token'' ''zeronetworks'' ''zero-core'' 5875 (JNull # [JStr ''cursor1'']),
           Inr (concat [[carol], [bob]])) \<and>
   length (requests ''token'' ''zeronetworks'' ''zero-core'' 5875 (JNull # [JStr ''cursor1''])) =
     length [response (first_page no_top_comments)] + 1"
proof -
  have h1: "list_all2 has_next [response (first_page no_top_comments)] [JStr ''cursor1'']"
    by (simp add: paged_has_next)
  have h2: "is_last (response (second_page no_top_comments))"
    by (rule paged_is_last)
  have h3: "list_all2 (\<lambda>p cs. page_comments p ''unresolved'' = Inr cs)
     ([response (first_page no_top_comments)] @ [response (second_page no_top_comments)])
     [[carol], [bob]]"
    by (simp add: paged_comments)
  have h4: "served (paged_world no_top_comments) []
     (requests ''token'' ''zeronetworks'' ''zero-core'' 5875 (JNull # [JStr ''cursor1'']))
     ([response (first_page no_top_comments)] @ [response (second_page no_top_comments)])"
    using paged_served[of no_top_comments] by (simp add: example_requests_def)
  from pagination[OF h1 h2 h3 h4] h1 h2 h3 h4 show ?thesis by blast
qed



text \<open>
  C6. The top-level comments of the pull request are fetched and never used:
  two worlds whose answers differ at most in
  \<^verbatim>\<open>data.repository.pullRequest.comments\<close> give the same run of \<^verbatim>\<open>get_pr_comments\<close>,
  the same requests and the same returned list or exception, under every
  filter.
\<close>

theorem top_level_comments_unused:
  assumes "drop_top_comments_world world = drop_top_comments_world world'"
  shows "get_pr_comments world token sent owner repo pr_number filter_type =
         get_pr_comments world' token sent owner repo pr_number filter_type"
  unfolding get_pr_comments_def using assms by (rule fetch_loop_same_world)

theorem top_level_comments_unused_witness:
  "drop_top_comments_world (paged_world no_top_comments) =
     drop_top_comments_world (paged_world some_top_comments) \<and>
   get_pr_comments (paged_world no_top_comments) ''token'' [] ''zeronetworks'' ''zero-core'' 5875
     ''unresolved'' =
   get_pr_comments (paged_world some_top_comments) ''token'' [] ''zeronetworks'' ''zero-core'' 5875
     ''unresolved''"
  using top_level_comments_unused[OF paged_worlds_agree] paged_worlds_agree
  by blast

section \<open>The entry point\<close>

text \<open>
  C7. If \<^verbatim>\<open>GH_TOKEN\<close> is unset or empty, \<^verbatim>\<open>main\<close> raises ValueError and no HTTP
  request has been made: the history of requests is empty.
\<close>

theorem missing_token:
  assumes "environ ''GH_TOKEN'' = None \<or> environ ''GH_TOKEN'' = Some ''''"
  shows "main world formatted_date environ a = Some ([], Raised ValueError)"
  using assms by (auto simp: main_def)

theorem missing_token_witness:
  "(bare_environ ''GH_TOKEN'' = None \<or> bare_environ ''GH_TOKEN'' = Some '''') \<and>
   main (paged_world no_top_comments) verbatim_date bare_environ default_args =
     Some ([], Raised ValueError)"
proof -
  have h: "bare_environ ''GH_TOKEN'' = None \<or> bare_environ ''GH_TOKEN'' = Some ''''"
    by (simp add: bare_environ_def)
  from missing_token[where environ = bare_environ, OF h] h show ?thesis by blast
qed

end
